theory Spec2Isabelle
  imports Main "HOL-Library.AList"
begin

text \<open>
  \<^verbatim>\<open>src/sw.js\<close> holds two programs of the bingo application: the service worker
  (lines 1-316), which caches the static assets and answers requests when the network is
  down, and the page script (lines 316-1109), which generates the boards, lets the
  player mark cells, checks for a win and saves the game in IndexedDB. Both are modelled
  here as functions on explicit state: a board, the module state of the script, the
  database, the cache storage. What the environment decides (random numbers, the clock,
  the network, whether the database opens, whether a card has its grid) is a parameter.
  The page itself is not modelled: the functions below leave out what only draws.
\<close>

section \<open>The bingo board (script part of src/sw.js)\<close>

subsection \<open>Constants\<close>

text \<open>
  \<^verbatim>\<open>BINGO_RANGES\<close>, \<^verbatim>\<open>MAX_BOARDS\<close> and \<^verbatim>\<open>FREE_SPACE_INDEX\<close> of lines 329-337.
\<close>

record bingo_range =
  letter :: string
  start :: nat
  end_n :: nat

definition BINGO_RANGES :: "bingo_range list" where
  "BINGO_RANGES =
     [\<lparr>letter = ''B'', start = 1, end_n = 15\<rparr>,
      \<lparr>letter = ''I'', start = 16, end_n = 30\<rparr>,
      \<lparr>letter = ''N'', start = 31, end_n = 45\<rparr>,
      \<lparr>letter = ''G'', start = 46, end_n = 60\<rparr>,
      \<lparr>letter = ''O'', start = 61, end_n = 75\<rparr>]"

definition MAX_BOARDS :: nat where
  "MAX_BOARDS = 300"

definition FREE_SPACE_INDEX :: nat where
  "FREE_SPACE_INDEX = 12"

subsection \<open>A JavaScript Set of cell indices\<close>

text \<open>
  A JavaScript \<^verbatim>\<open>Set\<close> keeps its members in insertion order, without repetition. It is
  modelled by the list of its members in that order: \<^verbatim>\<open>has\<close> is membership, \<^verbatim>\<open>add\<close>
  appends a member that is not there yet, \<^verbatim>\<open>delete\<close> removes it, \<^verbatim>\<open>clear\<close> empties
  the set. \<^verbatim>\<open>new Set(array)\<close> adds the array's elements one after the other and
  \<^verbatim>\<open>Array.from(set)\<close> lists the members in insertion order.
\<close>

type_synonym js_set = "nat list"

definition set_has :: "js_set \<Rightarrow> nat \<Rightarrow> bool" where
  "set_has s i = (i \<in> set s)"

definition set_add :: "js_set \<Rightarrow> nat \<Rightarrow> js_set" where
  "set_add s i = (if set_has s i then s else s @ [i])"

definition set_delete :: "js_set \<Rightarrow> nat \<Rightarrow> js_set" where
  "set_delete s i = removeAll i s"

definition set_clear :: "js_set \<Rightarrow> js_set" where
  "set_clear s = []"

definition new_Set :: "nat list \<Rightarrow> js_set" where
  "new_Set xs = fold (\<lambda>i s. set_add s i) xs []"

definition Array_from :: "js_set \<Rightarrow> nat list" where
  "Array_from s = s"

subsection \<open>Boards\<close>

text \<open>
  A slot of \<^verbatim>\<open>board.numbers\<close> holds a number, the string \<^verbatim>\<open>"FREE"\<close>, or nothing (a hole
  of the array while it is being filled). The score is a JavaScript number that only
  ever holds a small integer counter; it is modelled as an integer.
\<close>

datatype slot = Hole | Num nat | FREE

record board =
  board_id :: nat
  numbers :: "slot list"
  markedCells :: js_set
  score :: int
  lastUpdated :: int

subsection \<open>Win checking (lines 916-956)\<close>

definition patterns :: "nat list list" where
  "patterns =
     [[0,1,2,3,4], [5,6,7,8,9], [10,11,12,13,14],
      [15,16,17,18,19], [20,21,22,23,24],
      [0,5,10,15,20], [1,6,11,16,21], [2,7,12,17,22],
      [3,8,13,18,23], [4,9,14,19,24],
      [0,6,12,18,24], [4,8,12,16,20]]"

text \<open>
  The loop \<^verbatim>\<open>for (let pattern of patterns)\<close>: the first pattern all of whose cells are
  marked ends the loop (\<^verbatim>\<open>break\<close>); the result is that pattern, which the code
  highlights, or nothing.
\<close>

fun first_winning :: "js_set \<Rightarrow> nat list list \<Rightarrow> nat list option" where
  "first_winning marked [] = None"
| "first_winning marked (pattern # rest) =
     (if list_all (\<lambda>i. set_has marked i) pattern then Some pattern
      else first_winning marked rest)"

text \<open>
  \<^verbatim>\<open>checkBingo(board, card)\<close>. Of the card only one fact matters:
  whether \<^verbatim>\<open>card.querySelector('.bingo-grid-unified')\<close> finds the grid
  (\<open>has_grid\<close>); without it the function returns at once. The result is the board and
  the pattern whose cells get the transient \<^verbatim>\<open>winning-cell\<close> highlight.
\<close>

definition checkBingo :: "bool \<Rightarrow> board \<Rightarrow> board \<times> nat list option" where
  "checkBingo has_grid board =
     (if \<not> has_grid then (board, None)
      else (case first_winning (markedCells board) patterns of
              None \<Rightarrow> (board, None)
            | Some pattern \<Rightarrow> (board\<lparr>score := score board + 1\<rparr>, Some pattern)))"

subsection \<open>Toggling and resetting (lines 869-896)\<close>

text \<open>
  \<^verbatim>\<open>toggleCell(cell, board, index, card)\<close>: the class change of the cell is display
  only; \<^verbatim>\<open>debounce(...)\<close> builds a function that is never called, so nothing is saved.
\<close>

definition toggleCell :: "bool \<Rightarrow> nat \<Rightarrow> board \<Rightarrow> board" where
  "toggleCell has_grid index board =
     (if index = FREE_SPACE_INDEX then board
      else fst (checkBingo has_grid
        (board\<lparr>markedCells :=
           (if set_has (markedCells board) index
            then set_delete (markedCells board) index
            else set_add (markedCells board) index)\<rparr>)))"

text \<open>
  \<^verbatim>\<open>resetBoard(board, card)\<close>: the new card replaces the old one on the page, and
  \<^verbatim>\<open>saveGameState()\<close> only writes to the durable store; the board itself changes as
  follows.
\<close>

definition resetBoard :: "board \<Rightarrow> board" where
  "resetBoard board =
     board\<lparr>markedCells := set_add (set_clear (markedCells board)) FREE_SPACE_INDEX,
           score := 0\<rparr>"

subsection \<open>Board generation (lines 483-510)\<close>

text \<open>
  \<^verbatim>\<open>Math.random()\<close> is the one input of the generator. It is modelled by the list of
  the draws still to come; a draw \<open>d\<close> stands for the random number whose scaled integer
  part \<^verbatim>\<open>Math.floor(Math.random() * k)\<close> is \<open>d mod k\<close>, so that every value of
  \<open>0..k-1\<close> can come out and no other, as for a random number in [0, 1).

  The loop \<^verbatim>\<open>while (colNums.length < 5)\<close> draws until the column has five different
  numbers. On a list of draws that ends before that the model returns \<open>None\<close>: the
  loop has not ended within these draws.
\<close>

fun fill_colNums ::
  "bingo_range \<Rightarrow> nat list \<Rightarrow> nat list \<Rightarrow> (nat list \<times> nat list) option" where
  "fill_colNums rng colNums draws =
     (if length colNums < 5 then
        (case draws of
           [] \<Rightarrow> None
         | d # rest \<Rightarrow>
             (let n = d mod (end_n rng - start rng + 1) + start rng
              in fill_colNums rng (if n \<in> set colNums then colNums else colNums @ [n]) rest))
      else Some (colNums, draws))"

text \<open>
  An assignment \<^verbatim>\<open>a[i] = v\<close> to a JavaScript array: beyond the end the array grows, the
  slots in between staying holes. Reading \<^verbatim>\<open>colNums[row]\<close> beyond the end gives
  \<^verbatim>\<open>undefined\<close>, which the slot type renders as a hole.
\<close>

definition array_assign :: "slot list \<Rightarrow> nat \<Rightarrow> slot \<Rightarrow> slot list" where
  "array_assign a i v =
     (if i < length a then a[i := v] else a @ replicate (i - length a) Hole @ [v])"

definition array_read :: "nat list \<Rightarrow> nat \<Rightarrow> slot" where
  "array_read a i = (if i < length a then Num (a ! i) else Hole)"

text \<open>
  The inner loop \<^verbatim>\<open>for (let row = 0; row < 5; row++)
  board.numbers[row * 5 + col] = colNums[row]\<close>.
\<close>

definition write_column :: "slot list \<Rightarrow> nat \<Rightarrow> nat list \<Rightarrow> slot list" where
  "write_column nums col colNums =
     fold (\<lambda>row a. array_assign a (row * 5 + col) (array_read colNums row)) [0..<5] nums"

text \<open>
  The loop over the columns: \<^verbatim>\<open>colNums.sort((a, b) => a - b)\<close> sorts the numbers in
  ascending order.
\<close>

fun generate_columns ::
  "nat list \<Rightarrow> slot list \<Rightarrow> nat list \<Rightarrow> (slot list \<times> nat list) option" where
  "generate_columns [] nums draws = Some (nums, draws)"
| "generate_columns (col # cols) nums draws =
     (case fill_colNums (BINGO_RANGES ! col) [] draws of
        None \<Rightarrow> None
      | Some (colNums, rest) \<Rightarrow>
          generate_columns cols (write_column nums col (sort colNums)) rest)"

text \<open>
  The body of the loop over the board ids: one board, with \<^verbatim>\<open>Date.now()\<close> given.
\<close>

definition generate_board :: "nat \<Rightarrow> int \<Rightarrow> nat list \<Rightarrow> (board \<times> nat list) option" where
  "generate_board ident now draws =
     (case generate_columns [0..<5] [] draws of
        None \<Rightarrow> None
      | Some (nums, rest) \<Rightarrow>
          Some (\<lparr>board_id = ident,
                 numbers = array_assign nums FREE_SPACE_INDEX FREE,
                 markedCells = new_Set [FREE_SPACE_INDEX],
                 score = 0,
                 lastUpdated = now\<rparr>, rest))"

fun generate_boards ::
  "nat list \<Rightarrow> (nat \<Rightarrow> int) \<Rightarrow> nat list \<Rightarrow> board list \<Rightarrow> board list option" where
  "generate_boards [] clock draws allBoards = Some allBoards"
| "generate_boards (ident # idents) clock draws allBoards =
     (case generate_board ident (clock ident) draws of
        None \<Rightarrow> None
      | Some (board, rest) \<Rightarrow> generate_boards idents clock rest (allBoards @ [board]))"

text \<open>
  \<^verbatim>\<open>generateMockBoards()\<close>: the boards 1 to \<^verbatim>\<open>MAX_BOARDS\<close>, pushed in this order onto
  the empty \<^verbatim>\<open>allBoards\<close>. \<open>clock ident\<close> is the value of \<^verbatim>\<open>Date.now()\<close> when board
  \<open>ident\<close> is made.
\<close>

definition generateMockBoards :: "(nat \<Rightarrow> int) \<Rightarrow> nat list \<Rightarrow> board list option" where
  "generateMockBoards clock draws = generate_boards [1..<MAX_BOARDS + 1] clock draws []"

text \<open>The five slots of column \<open>col\<close>, top to bottom.\<close>

definition column_slots :: "board \<Rightarrow> nat \<Rightarrow> slot list" where
  "column_slots board col = map (\<lambda>row. numbers board ! (row * 5 + col)) [0..<5]"

section \<open>Persistence in IndexedDB (script part of src/sw.js)\<close>

subsection \<open>Stored records\<close>

text \<open>
  A stored board is the board with its set of marked cells turned into an array. On the
  way back the code reads \<^verbatim>\<open>board.markedCells || [FREE_SPACE_INDEX]\<close> and
  \<^verbatim>\<open>state.selectedBoards || []\<close>: these two fields may be missing from a record,
  which \<open>None\<close> stands for.
\<close>

record stored_board =
  sb_id :: nat
  sb_numbers :: "slot list"
  sb_markedCells :: "nat list option"
  sb_score :: int
  sb_lastUpdated :: int

record stored_state =
  st_id :: string
  st_selectedBoards :: "nat list option"
  st_boards :: "stored_board list"
  st_timestamp :: int

text \<open>\<^verbatim>\<open>{...board, markedCells: Array.from(board.markedCells)}\<close> (lines 540-543, 1002-1005).\<close>

definition store_board :: "board \<Rightarrow> stored_board" where
  "store_board board =
     \<lparr>sb_id = board_id board, sb_numbers = numbers board,
      sb_markedCells = Some (Array_from (markedCells board)),
      sb_score = score board, sb_lastUpdated = lastUpdated board\<rparr>"

text \<open>
  \<^verbatim>\<open>{...board, markedCells: new Set(board.markedCells || [FREE_SPACE_INDEX])}\<close>
  (lines 562-565, 1026-1029).
\<close>

definition rehydrate_board :: "stored_board \<Rightarrow> board" where
  "rehydrate_board stored =
     \<lparr>board_id = sb_id stored, numbers = sb_numbers stored,
      markedCells = new_Set (case sb_markedCells stored of
                               Some cells \<Rightarrow> cells
                             | None \<Rightarrow> [FREE_SPACE_INDEX]),
      score = sb_score stored, lastUpdated = sb_lastUpdated stored\<rparr>"

subsection \<open>The database and the application state\<close>

text \<open>
  The database \<^verbatim>\<open>BingoDB\<close> has the object stores \<^verbatim>\<open>boards\<close> and \<^verbatim>\<open>gameState\<close>, both
  keyed by \<^verbatim>\<open>id\<close>. It may fail to open (\<^verbatim>\<open>request.onerror\<close> rejects the promise of
  \<^verbatim>\<open>openIndexedDB\<close>) or to start a transaction (\<^verbatim>\<open>db.transaction\<close> throws).
\<close>

datatype idb_status = Available | OpenFails | TransactionFails

record idb =
  db_status :: idb_status
  boards_store :: "(nat \<times> stored_board) list"
  gameState_store :: "(string \<times> stored_state) list"

datatype js_error = DOMException | TypeError

text \<open>
  The module state of the script (lines 340-341) and the console, to which the
  \<^verbatim>\<open>catch\<close> blocks write.
\<close>

record app =
  allBoards :: "board list"
  selectedBoards :: "nat list"
  console :: "string list"

definition openIndexedDB :: "idb \<Rightarrow> js_error + idb" where
  "openIndexedDB db = (if db_status db = OpenFails then Inl DOMException else Inr db)"

definition transaction :: "idb \<Rightarrow> js_error + idb" where
  "transaction db = (if db_status db = TransactionFails then Inl DOMException else Inr db)"

text \<open>
  \<^verbatim>\<open>openIndexedDB\<close> (lines 513-530) opens the database with the browser's own
  \<^verbatim>\<open>indexedDB.open\<close> and wraps that one request in a promise by hand, through
  \<^verbatim>\<open>onsuccess\<close> and \<^verbatim>\<open>onerror\<close>. The object stores of the database it resolves to are
  the browser's: \<^verbatim>\<open>store.get\<close> and \<^verbatim>\<open>store.getAll\<close> return an \<^verbatim>\<open>IDBRequest\<close>, whose
  \<^verbatim>\<open>result\<close> arrives with a later success event. A request has no \<^verbatim>\<open>then\<close>, so
  \<^verbatim>\<open>await store.get(...)\<close> evaluates to the request object itself. An awaited value
  is therefore either such a request (carrying the result that the event would deliver)
  or a plain value.
\<close>

datatype 'a awaited = IDBRequest 'a | Plain 'a

definition store_get :: "idb \<Rightarrow> string \<Rightarrow> stored_state option awaited" where
  "store_get db key = IDBRequest (map_of (gameState_store db) key)"


subsection \<open>Saving (lines 532-552 and 993-1015)\<close>

text \<open>
  \<^verbatim>\<open>saveGameState()\<close>: the \<^verbatim>\<open>try\<close> block opens the database, starts the transaction
  and puts the record under the key \<^verbatim>\<open>'current'\<close>; \<^verbatim>\<open>tx.complete\<close> is undefined on the
  browser's transaction, so awaiting it does nothing. The \<^verbatim>\<open>catch\<close> block logs. The
  result is \<open>Inl\<close> if an exception leaves the function, else the database and the
  application state after it. \<open>now\<close> is \<^verbatim>\<open>Date.now()\<close>.
\<close>

definition game_state :: "int \<Rightarrow> app \<Rightarrow> stored_state" where
  "game_state now a =
     \<lparr>st_id = ''current'',
      st_selectedBoards = Some (selectedBoards a),
      st_boards = map store_board (allBoards a),
      st_timestamp = now\<rparr>"

definition saveGameState :: "int \<Rightarrow> idb \<Rightarrow> app \<Rightarrow> js_error + (idb \<times> app)" where
  "saveGameState now db a =
     (case (case openIndexedDB db of
              Inl e \<Rightarrow> Inl e
            | Inr opened \<Rightarrow>
                (case transaction opened of
                   Inl e \<Rightarrow> Inl e
                 | Inr tx \<Rightarrow>
                     Inr (tx\<lparr>gameState_store :=
                            AList.update ''current'' (game_state now a) (gameState_store tx)\<rparr>))) of
        Inr saved \<Rightarrow> Inr (saved, a\<lparr>console := console a @ [''Game state saved'']\<rparr>)
      | Inl e \<Rightarrow> Inr (db, a\<lparr>console := console a @ [''Failed to save game state:'']\<rparr>))"


subsection \<open>Loading (lines 554-570 and 1017-1040)\<close>

text \<open>
  The part of \<^verbatim>\<open>loadGameState\<close> after \<^verbatim>\<open>const state = await store.get('current')\<close>,
  for each thing \<open>state\<close> can be. The result is the exception thrown, if any, and the
  application state at that point.
  \<^item> A request object is truthy and has neither \<^verbatim>\<open>selectedBoards\<close> nor \<^verbatim>\<open>boards\<close>:
    \<^verbatim>\<open>selectedBoards = state.selectedBoards || []\<close> assigns the empty array, then
    \<^verbatim>\<open>state.boards.map\<close> throws a \<^verbatim>\<open>TypeError\<close>.
  \<^item> \<^verbatim>\<open>undefined\<close> (no record) is falsy: nothing happens.
  \<^item> A record is rehydrated. (Drawing the boards does not change the state.)
\<close>

definition loadGameState_state ::
  "stored_state option awaited \<Rightarrow> app \<Rightarrow> js_error option \<times> app" where
  "loadGameState_state state a =
     (case state of
        IDBRequest r \<Rightarrow> (Some TypeError, a\<lparr>selectedBoards := []\<rparr>)
      | Plain None \<Rightarrow> (None, a)
      | Plain (Some stored) \<Rightarrow>
          (None, a\<lparr>selectedBoards :=
                     (case st_selectedBoards stored of Some ids \<Rightarrow> ids | None \<Rightarrow> []),
                   allBoards := map rehydrate_board (st_boards stored)\<rparr>))"

definition loadGameState :: "idb \<Rightarrow> app \<Rightarrow> js_error + app" where
  "loadGameState db a =
     (case openIndexedDB db of
        Inl e \<Rightarrow> Inr (a\<lparr>console := console a @ [''Failed to load game state:'']\<rparr>)
      | Inr opened \<Rightarrow>
          (case transaction opened of
             Inl e \<Rightarrow> Inr (a\<lparr>console := console a @ [''Failed to load game state:'']\<rparr>)
           | Inr tx \<Rightarrow>
               (case loadGameState_state (store_get tx ''current'') a of
                  (Some e, a') \<Rightarrow>
                    Inr (a'\<lparr>console := console a' @ [''Failed to load game state:'']\<rparr>)
                | (None, a') \<Rightarrow> Inr a')))"



section \<open>The service worker (first part of src/sw.js)\<close>

subsection \<open>Requests, responses and the cache storage\<close>

definition SW_VERSION :: string where
  "SW_VERSION = ''1.0.0''"

definition CACHE_NAME :: string where
  "CACHE_NAME = ''bingo-pwa-v'' @ SW_VERSION"

record request =
  req_url :: string
  req_method :: string
  req_mode :: string

text \<open>A body is text, or the JSON text of an object with the given string fields.\<close>

datatype body = Text string | Json "(string \<times> string) list"

record response =
  resp_status :: nat
  resp_statusText :: string
  resp_headers :: "(string \<times> string) list"
  resp_body :: body

definition ok :: "response \<Rightarrow> bool" where
  "ok r = (200 \<le> resp_status r \<and> resp_status r \<le> 299)"

text \<open>
  A cache maps the URL of a request to the response stored for it; the cache storage
  lists the caches by name, in the order of their creation. Only \<^verbatim>\<open>GET\<close> requests are
  ever matched or stored: \<^verbatim>\<open>match\<close> finds nothing for another method, and \<^verbatim>\<open>put\<close>
  rejects it (the code does not await \<^verbatim>\<open>put\<close>, so the rejection goes nowhere).
  \<^verbatim>\<open>caches.match\<close> asks the caches in order; \<^verbatim>\<open>caches.open\<close> creates a cache that is
  not there. The cache storage itself is taken to work: its operations do not throw.
\<close>

type_synonym cache = "(string \<times> response) list"

type_synonym cache_storage = "(string \<times> cache) list"

definition cache_match :: "cache \<Rightarrow> request \<Rightarrow> response option" where
  "cache_match c req = (if req_method req = ''GET'' then map_of c (req_url req) else None)"

fun caches_match :: "cache_storage \<Rightarrow> request \<Rightarrow> response option" where
  "caches_match [] req = None"
| "caches_match ((name, c) # rest) req =
     (case cache_match c req of Some r \<Rightarrow> Some r | None \<Rightarrow> caches_match rest req)"

definition Request_of :: "string \<Rightarrow> request" where
  "Request_of u = \<lparr>req_url = u, req_method = ''GET'', req_mode = ''cors''\<rparr>"

definition caches_open :: "cache_storage \<Rightarrow> string \<Rightarrow> cache_storage" where
  "caches_open cs name = (if name \<in> set (map fst cs) then cs else cs @ [(name, [])])"

definition caches_keys :: "cache_storage \<Rightarrow> string list" where
  "caches_keys cs = map fst cs"

definition caches_delete :: "cache_storage \<Rightarrow> string \<Rightarrow> cache_storage" where
  "caches_delete cs name = AList.delete name cs"

text \<open>\<^verbatim>\<open>const cache = await caches.open(CACHE_NAME); cache.put(request, response)\<close>.\<close>

definition cache_put :: "cache_storage \<Rightarrow> request \<Rightarrow> response \<Rightarrow> cache_storage" where
  "cache_put cs req resp =
     (if req_method req = ''GET''
      then AList.map_entry CACHE_NAME (AList.update (req_url req) resp) (caches_open cs CACHE_NAME)
      else caches_open cs CACHE_NAME)"

subsection \<open>Activation (lines 60-78)\<close>

text \<open>
  \<^verbatim>\<open>caches.keys()\<close>, then \<^verbatim>\<open>caches.delete(key)\<close> for every key that is not
  \<^verbatim>\<open>CACHE_NAME\<close>.
\<close>

definition activate :: "cache_storage \<Rightarrow> cache_storage" where
  "activate cs =
     fold (\<lambda>key remaining. if key \<noteq> CACHE_NAME then caches_delete remaining key else remaining)
       (caches_keys cs) cs"

subsection \<open>The fetch handlers (lines 108-249)\<close>

text \<open>
  \<^verbatim>\<open>fetch(request)\<close> is the network: it answers with a response or fails (\<open>None\<close>),
  which throws inside the handler. A handler's result is \<open>Inl\<close> if an exception leaves
  it, else the value its promise resolves with (\<open>None\<close> for \<^verbatim>\<open>undefined\<close>) and the
  cache storage afterwards.
\<close>

type_synonym network = "request \<Rightarrow> response option"

type_synonym handled = "js_error + (response option \<times> cache_storage)"

definition handleNavigation :: "network \<Rightarrow> cache_storage \<Rightarrow> request \<Rightarrow> handled" where
  "handleNavigation net cs req =
     (case net req of
        Some networkResponse \<Rightarrow>
          Inr (Some networkResponse,
               if ok networkResponse then cache_put cs req networkResponse else cs)
      | None \<Rightarrow>
          (case caches_match cs req of
             Some cachedResponse \<Rightarrow> Inr (Some cachedResponse, cs)
           | None \<Rightarrow> Inr (caches_match cs (Request_of ''/index.html''), cs)))"

definition updateCache :: "network \<Rightarrow> cache_storage \<Rightarrow> request \<Rightarrow> cache_storage" where
  "updateCache net cs req =
     (case net req of
        Some networkResponse \<Rightarrow>
          (if ok networkResponse then cache_put cs req networkResponse else cs)
      | None \<Rightarrow> cs)"

definition handleStaticAsset :: "network \<Rightarrow> cache_storage \<Rightarrow> request \<Rightarrow> handled" where
  "handleStaticAsset net cs req =
     (case caches_match cs req of
        Some cachedResponse \<Rightarrow> Inr (Some cachedResponse, updateCache net cs req)
      | None \<Rightarrow>
          (case net req of
             Some networkResponse \<Rightarrow>
               Inr (Some networkResponse,
                    if ok networkResponse then cache_put cs req networkResponse else cs)
           | None \<Rightarrow>
               Inr (Some \<lparr>resp_status = 503, resp_statusText = [], resp_headers = [],
                          resp_body = Text ''Offline - Asset not available''\<rparr>, cs)))"

definition handleAPIRequest :: "network \<Rightarrow> cache_storage \<Rightarrow> request \<Rightarrow> handled" where
  "handleAPIRequest net cs req =
     (case net req of
        Some networkResponse \<Rightarrow>
          Inr (Some networkResponse,
               if ok networkResponse then cache_put cs req networkResponse else cs)
      | None \<Rightarrow>
          (case caches_match cs req of
             Some cachedResponse \<Rightarrow>
               Inr (Some (cachedResponse\<lparr>resp_headers :=
                            resp_headers cachedResponse @ [(''X-Offline-Mode'', ''true'')]\<rparr>), cs)
           | None \<Rightarrow>
               Inr (Some \<lparr>resp_status = 503, resp_statusText = [],
                          resp_headers = [(''Content-Type'', ''application/json'')],
                          resp_body = Json [(''error'', ''offline''),
                            (''message'', ''You are offline. Some features may be limited.'')]\<rparr>,
                    cs)))"

text \<open>\<^verbatim>\<open>String.prototype.includes\<close>: the text occurs somewhere in the string.\<close>

fun str_includes :: "string \<Rightarrow> string \<Rightarrow> bool" where
  "str_includes [] t = (t = [])"
| "str_includes (c # cs) t = (take (length t) (c # cs) = t \<or> str_includes cs t)"

definition shouldCache :: "request \<Rightarrow> bool" where
  "shouldCache req =
     (if req_method req \<noteq> ''GET'' then False
      else if str_includes (req_url req) ''analytics'' \<or> str_includes (req_url req) ''tracking'' then False
      else True)"

definition handleDefault :: "network \<Rightarrow> cache_storage \<Rightarrow> request \<Rightarrow> handled" where
  "handleDefault net cs req =
     (case caches_match cs req of
        Some cachedResponse \<Rightarrow> Inr (Some cachedResponse, cs)
      | None \<Rightarrow>
          (case net req of
             Some networkResponse \<Rightarrow>
               Inr (Some networkResponse,
                    if ok networkResponse \<and> shouldCache req
                    then cache_put cs req networkResponse else cs)
           | None \<Rightarrow>
               Inr (Some \<lparr>resp_status = 503, resp_statusText = [], resp_headers = [],
                          resp_body = Text ''Offline''\<rparr>, cs)))"

section \<open>Predicates and concrete inputs\<close>

text \<open>
  What a column of five numbers has to satisfy: strictly increasing top to bottom (hence
  distinct) and within the range of the column.
\<close>

definition column_ok :: "nat \<Rightarrow> nat list \<Rightarrow> bool" where
  "column_ok col ns \<longleftrightarrow>
     length ns = 5 \<and> sorted_wrt (<) ns \<and>
     (\<forall>n \<in> set ns. start (BINGO_RANGES ! col) \<le> n \<and> n \<le> end_n (BINGO_RANGES ! col))"

text \<open>
  Concrete inputs: random draws on which every column is filled after five draws, a
  clock, the board these draws give (the same for every id, up to id and time stamp),
  and that board with the first row marked.
\<close>

definition example_row :: "nat list" where
  "example_row = [0,3,6,9,12, 0,3,6,9,12, 0,3,6,9,12, 0,3,6,9,12, 0,3,6,9,12]"

definition example_draws :: "nat list" where
  "example_draws = concat (replicate MAX_BOARDS example_row)"

definition example_clock :: "nat \<Rightarrow> int" where
  "example_clock ident = int ident"

definition example_board :: "nat \<Rightarrow> board" where
  "example_board ident =
     \<lparr>board_id = ident,
      numbers = [Num 1, Num 16, Num 31, Num 46, Num 61,
                 Num 4, Num 19, Num 34, Num 49, Num 64,
                 Num 7, Num 22, FREE, Num 52, Num 67,
                 Num 10, Num 25, Num 40, Num 55, Num 70,
                 Num 13, Num 28, Num 43, Num 58, Num 73],
      markedCells = [12], score = 0, lastUpdated = example_clock ident\<rparr>"

definition example_boards :: "board list" where
  "example_boards = map example_board [1..<MAX_BOARDS + 1]"

definition first_row_board :: board where
  "first_row_board = (example_board 1)\<lparr>markedCells := [12, 0, 1, 2, 3, 4]\<rparr>"

text \<open>
  Concrete inputs for the service worker: a network that is down, the index document,
  a navigation request for it, and a cache storage that holds it.
\<close>

definition offline :: network where
  "offline req = None"

definition index_document :: response where
  "index_document =
     \<lparr>resp_status = 200, resp_statusText = ''OK'',
      resp_headers = [(''Content-Type'', ''text/html'')],
      resp_body = Text ''<!DOCTYPE html>''\<rparr>"

definition index_request :: request where
  "index_request = \<lparr>req_url = ''/index.html'', req_method = ''GET'', req_mode = ''navigate''\<rparr>"

definition installed_caches :: cache_storage where
  "installed_caches = [(CACHE_NAME, [(''/'', index_document), (''/index.html'', index_document)])]"

text \<open>
  Concrete inputs for persistence: an empty database that works, and an application
  state with one board, which is selected.
\<close>

definition empty_db :: idb where
  "empty_db = \<lparr>db_status = Available, boards_store = [], gameState_store = []\<rparr>"

definition one_board_app :: app where
  "one_board_app = \<lparr>allBoards = [first_row_board], selectedBoards = [1], console = []\<rparr>"

section \<open>Properties of the board operations\<close>



lemma markedCells_checkBingo:
  "markedCells (fst (checkBingo g b)) = markedCells b"
  by (simp add: checkBingo_def split: option.splits)

lemma set_toggle_marked:
  "set (if set_has s i then set_delete s i else set_add s i) =
     (if i \<in> set s then set s - {i} else insert i (set s))"
  by (auto simp: set_has_def set_delete_def set_add_def)

lemma markedCells_toggleCell:
  "set (markedCells (toggleCell g i b)) =
     (if i = FREE_SPACE_INDEX then set (markedCells b)
      else if i \<in> set (markedCells b) then set (markedCells b) - {i}
      else insert i (set (markedCells b)))"
  unfolding toggleCell_def
  by (simp add: markedCells_checkBingo set_toggle_marked del: set_removeAll)



lemma frame_checkBingo:
  "board_id (fst (checkBingo g b)) = board_id b \<and>
   numbers (fst (checkBingo g b)) = numbers b \<and>
   lastUpdated (fst (checkBingo g b)) = lastUpdated b"
  by (simp add: checkBingo_def split: option.splits)



section \<open>Properties of the generator\<close>

declare fill_colNums.simps [simp del]

lemma fill_colNums_done:
  "5 \<le> length colNums \<Longrightarrow> fill_colNums rng colNums draws = Some (colNums, draws)"
  by (subst fill_colNums.simps) simp

lemma fill_colNums_Cons:
  "length colNums < 5 \<Longrightarrow>
   fill_colNums rng colNums (d # rest) =
     fill_colNums rng
       (if d mod (end_n rng - start rng + 1) + start rng \<in> set colNums then colNums
        else colNums @ [d mod (end_n rng - start rng + 1) + start rng]) rest"
  by (subst fill_colNums.simps) (simp add: Let_def)

lemma fill_colNums_inv:
  assumes "fill_colNums rng colNums draws = Some (filled, rest)"
    and "start rng \<le> end_n rng"
    and "distinct colNums" and "length colNums \<le> 5"
    and "\<forall>n \<in> set colNums. start rng \<le> n \<and> n \<le> end_n rng"
  shows "distinct filled \<and> length filled = 5 \<and>
         (\<forall>n \<in> set filled. start rng \<le> n \<and> n \<le> end_n rng)"
  using assms
proof (induction rng colNums draws rule: fill_colNums.induct)
  case (1 rng colNums draws)
  show ?case
  proof (cases "length colNums < 5")
    case False
    with "1.prems" show ?thesis
      by (simp add: fill_colNums_done)
  next
    case True
    then obtain d ds where draws: "draws = d # ds"
      using "1.prems"(1) by (cases draws) (simp_all add: fill_colNums.simps)
    define n where "n = d mod (end_n rng - start rng + 1) + start rng"
    define next_col where "next_col = (if n \<in> set colNums then colNums else colNums @ [n])"
    have n_range: "start rng \<le> n \<and> n \<le> end_n rng"
    proof -
      have "d mod (end_n rng - start rng + 1) < end_n rng - start rng + 1"
        by simp
      then show ?thesis
        using "1.prems"(2) unfolding n_def by linarith
    qed
    have "fill_colNums rng colNums (d # ds) = fill_colNums rng next_col ds"
      unfolding next_col_def n_def by (rule fill_colNums_Cons [OF True])
    then have run: "fill_colNums rng next_col ds = Some (filled, rest)"
      using "1.prems"(1) draws by simp
    have "distinct next_col" "length next_col \<le> 5"
      "\<forall>m \<in> set next_col. start rng \<le> m \<and> m \<le> end_n rng"
      using "1.prems"(3,4,5) True n_range by (auto simp: next_col_def)
    with "1.IH" [OF True draws n_def, folded next_col_def] run "1.prems"(2)
    show ?thesis
      by blast
  qed
qed


lemma length_five:
  "length xs = 5 \<Longrightarrow> \<exists>a b c d e. xs = [a, b, c, d, e]"
  by (auto simp: length_Suc_conv numeral_eq_Suc)

lemma BINGO_RANGES_ordered:
  "col < 5 \<Longrightarrow> start (BINGO_RANGES ! col) \<le> end_n (BINGO_RANGES ! col)"
  by (auto simp: BINGO_RANGES_def less_Suc_eq numeral_eq_Suc)

lemma fill_colNums_column_ok:
  assumes "fill_colNums (BINGO_RANGES ! col) [] draws = Some (colNums, rest)" and "col < 5"
  shows "column_ok col (sort colNums)"
proof -
  have "distinct colNums \<and> length colNums = 5 \<and>
        (\<forall>n \<in> set colNums. start (BINGO_RANGES ! col) \<le> n \<and> n \<le> end_n (BINGO_RANGES ! col))"
    using fill_colNums_inv [OF assms(1) BINGO_RANGES_ordered [OF assms(2)]] by simp
  then show ?thesis
    by (simp add: column_ok_def strict_sorted_iff)
qed

lemma write_column_five:
  "write_column nums col [a, b, c, d, e] =
     array_assign (array_assign (array_assign (array_assign (array_assign nums
       col (Num a)) (5 + col) (Num b)) (10 + col) (Num c)) (15 + col) (Num d)) (20 + col) (Num e)"
  by (simp add: write_column_def array_read_def upt_rec)

lemma write_columns_five:
  "write_column (write_column (write_column (write_column (write_column []
     0 [a0, b0, d0, e0, g0]) 1 [a1, b1, d1, e1, g1]) 2 [a2, b2, d2, e2, g2])
     3 [a3, b3, d3, e3, g3]) 4 [a4, b4, d4, e4, g4] =
   [Num a0, Num a1, Num a2, Num a3, Num a4, Num b0, Num b1, Num b2, Num b3, Num b4,
    Num d0, Num d1, Num d2, Num d3, Num d4, Num e0, Num e1, Num e2, Num e3, Num e4,
    Num g0, Num g1, Num g2, Num g3, Num g4]"
  unfolding write_column_five by (simp add: array_assign_def numeral_eq_Suc)

lemma generate_columns_layout:
  assumes "generate_columns [0..<5] [] draws = Some (nums, rest)"
  shows "\<exists>s0 s1 s2 s3 s4.
           column_ok 0 s0 \<and> column_ok 1 s1 \<and> column_ok 2 s2 \<and> column_ok 3 s3 \<and>
           column_ok 4 s4 \<and>
           nums = [Num (s0 ! 0), Num (s1 ! 0), Num (s2 ! 0), Num (s3 ! 0), Num (s4 ! 0), Num (s0 ! 1), Num (s1 ! 1), Num (s2 ! 1), Num (s3 ! 1), Num (s4 ! 1), Num (s0 ! 2), Num (s1 ! 2), Num (s2 ! 2), Num (s3 ! 2), Num (s4 ! 2), Num (s0 ! 3), Num (s1 ! 3), Num (s2 ! 3), Num (s3 ! 3), Num (s4 ! 3), Num (s0 ! 4), Num (s1 ! 4), Num (s2 ! 4), Num (s3 ! 4), Num (s4 ! 4)]"
proof -
  have upt5: "[0..<5] = [0, 1, 2, 3, 4 :: nat]"
    by (simp add: upt_rec)
  from assms obtain c0 r0 c1 r1 c2 r2 c3 r3 c4 where
    f0: "fill_colNums (BINGO_RANGES ! 0) [] draws = Some (c0, r0)" and
    f1: "fill_colNums (BINGO_RANGES ! 1) [] r0 = Some (c1, r1)" and
    f2: "fill_colNums (BINGO_RANGES ! 2) [] r1 = Some (c2, r2)" and
    f3: "fill_colNums (BINGO_RANGES ! 3) [] r2 = Some (c3, r3)" and
    f4: "fill_colNums (BINGO_RANGES ! 4) [] r3 = Some (c4, rest)" and
    nums: "nums = write_column (write_column (write_column (write_column (write_column []
             0 (sort c0)) 1 (sort c1)) 2 (sort c2)) 3 (sort c3)) 4 (sort c4)"
    unfolding upt5 by (auto split: option.splits)
  have ok: "column_ok 0 (sort c0)" "column_ok 1 (sort c1)" "column_ok 2 (sort c2)"
    "column_ok 3 (sort c3)" "column_ok 4 (sort c4)"
    using f0 f1 f2 f3 f4 by (simp_all add: fill_colNums_column_ok)
  obtain a0 b0 d0 e0 g0 where s0: "sort c0 = [a0, b0, d0, e0, g0]"
    using ok(1) length_five [of "sort c0"] unfolding column_ok_def by blast
  obtain a1 b1 d1 e1 g1 where s1: "sort c1 = [a1, b1, d1, e1, g1]"
    using ok(2) length_five [of "sort c1"] unfolding column_ok_def by blast
  obtain a2 b2 d2 e2 g2 where s2: "sort c2 = [a2, b2, d2, e2, g2]"
    using ok(3) length_five [of "sort c2"] unfolding column_ok_def by blast
  obtain a3 b3 d3 e3 g3 where s3: "sort c3 = [a3, b3, d3, e3, g3]"
    using ok(4) length_five [of "sort c3"] unfolding column_ok_def by blast
  obtain a4 b4 d4 e4 g4 where s4: "sort c4 = [a4, b4, d4, e4, g4]"
    using ok(5) length_five [of "sort c4"] unfolding column_ok_def by blast
  have "nums = [Num a0, Num a1, Num a2, Num a3, Num a4, Num b0, Num b1, Num b2, Num b3, Num b4,
                Num d0, Num d1, Num d2, Num d3, Num d4, Num e0, Num e1, Num e2, Num e3, Num e4,
                Num g0, Num g1, Num g2, Num g3, Num g4]"
    unfolding nums s0 s1 s2 s3 s4 by (rule write_columns_five)
  then have "nums = (let s0 = sort c0; s1 = sort c1; s2 = sort c2; s3 = sort c3; s4 = sort c4
                     in [Num (s0 ! 0), Num (s1 ! 0), Num (s2 ! 0), Num (s3 ! 0), Num (s4 ! 0), Num (s0 ! 1), Num (s1 ! 1), Num (s2 ! 1), Num (s3 ! 1), Num (s4 ! 1), Num (s0 ! 2), Num (s1 ! 2), Num (s2 ! 2), Num (s3 ! 2), Num (s4 ! 2), Num (s0 ! 3), Num (s1 ! 3), Num (s2 ! 3), Num (s3 ! 3), Num (s4 ! 3), Num (s0 ! 4), Num (s1 ! 4), Num (s2 ! 4), Num (s3 ! 4), Num (s4 ! 4)])"
    unfolding s0 s1 s2 s3 s4 by simp
  with ok show ?thesis
    unfolding Let_def by blast
qed


lemma map_Num_five:
  "length s = 5 \<Longrightarrow> map Num s = [Num (s ! 0), Num (s ! 1), Num (s ! 2), Num (s ! 3), Num (s ! 4)]"
  by (auto dest: length_five)

lemma generate_board_fields:
  assumes "generate_board ident now draws = Some (b, rest)"
  shows "board_id b = ident \<and> markedCells b = [FREE_SPACE_INDEX] \<and> score b = 0 \<and>
         lastUpdated b = now"
  using assms
  by (auto simp: generate_board_def new_Set_def set_add_def set_has_def split: option.splits)

lemma generate_board_columns:
  assumes gen: "generate_board ident now draws = Some (b, rest)" and col: "col < 5"
  shows "length (numbers b) = 25 \<and> numbers b ! FREE_SPACE_INDEX = FREE \<and>
         (\<exists>ns. column_ok col ns \<and>
            column_slots b col = (if col = 2 then (map Num ns)[2 := FREE] else map Num ns))"
proof -
  from gen obtain nums where
    cols: "generate_columns [0..<5] [] draws = Some (nums, rest)" and
    b: "numbers b = array_assign nums FREE_SPACE_INDEX FREE"
    by (auto simp: generate_board_def split: option.splits)
  from generate_columns_layout [OF cols] obtain s0 s1 s2 s3 s4 where
    ok: "column_ok 0 s0" "column_ok 1 s1" "column_ok 2 s2" "column_ok 3 s3" "column_ok 4 s4" and
    nums: "nums = [Num (s0 ! 0), Num (s1 ! 0), Num (s2 ! 0), Num (s3 ! 0), Num (s4 ! 0), Num (s0 ! 1), Num (s1 ! 1), Num (s2 ! 1), Num (s3 ! 1), Num (s4 ! 1), Num (s0 ! 2), Num (s1 ! 2), Num (s2 ! 2), Num (s3 ! 2), Num (s4 ! 2), Num (s0 ! 3), Num (s1 ! 3), Num (s2 ! 3), Num (s3 ! 3), Num (s4 ! 3), Num (s0 ! 4), Num (s1 ! 4), Num (s2 ! 4), Num (s3 ! 4), Num (s4 ! 4)]"
    by blast
  have len: "length s0 = 5" "length s1 = 5" "length s2 = 5" "length s3 = 5" "length s4 = 5"
    using ok by (simp_all add: column_ok_def)
  have numbers: "numbers b = nums[12 := FREE]"
    by (simp add: b array_assign_def FREE_SPACE_INDEX_def nums)
  have upt5: "[0..<5] = [0, 1, 2, 3, 4 :: nat]"
    by (simp add: upt_rec)
  have c0: "column_slots b 0 = map Num s0"
    by (simp add: column_slots_def upt5 numbers nums map_Num_five [OF len(1)])
  have c1: "column_slots b 1 = map Num s1"
    by (simp add: column_slots_def upt5 numbers nums map_Num_five [OF len(2)])
  have c2: "column_slots b 2 = (map Num s2)[2 := FREE]"
    by (simp add: column_slots_def upt5 numbers nums map_Num_five [OF len(3)])
  have c3: "column_slots b 3 = map Num s3"
    by (simp add: column_slots_def upt5 numbers nums map_Num_five [OF len(4)])
  have c4: "column_slots b 4 = map Num s4"
    by (simp add: column_slots_def upt5 numbers nums map_Num_five [OF len(5)])
  have "col = 0 \<or> col = 1 \<or> col = 2 \<or> col = 3 \<or> col = 4"
    using col by linarith
  then have "\<exists>ns. column_ok col ns \<and>
            column_slots b col = (if col = 2 then (map Num ns)[2 := FREE] else map Num ns)"
    using ok c0 c1 c2 c3 c4 by auto
  moreover have "length (numbers b) = 25" "numbers b ! FREE_SPACE_INDEX = FREE"
    by (simp_all add: numbers nums FREE_SPACE_INDEX_def)
  ultimately show ?thesis
    by blast
qed

lemma generate_boards_member:
  assumes "generate_boards idents clock draws acc = Some boards" and "b \<in> set boards"
  shows "b \<in> set acc \<or> (\<exists>ident now ds rest. generate_board ident now ds = Some (b, rest))"
  using assms
proof (induction idents arbitrary: draws acc)
  case Nil
  then show ?case by simp
next
  case (Cons ident idents)
  from Cons.prems(1) obtain made rest where
    made: "generate_board ident (clock ident) draws = Some (made, rest)" and
    run: "generate_boards idents clock rest (acc @ [made]) = Some boards"
    by (auto split: option.splits)
  from Cons.IH [OF run Cons.prems(2)] made show ?case
    by auto
qed

lemma generateMockBoards_member:
  assumes "generateMockBoards clock draws = Some boards" and "b \<in> set boards"
  shows "\<exists>ident now ds rest. generate_board ident now ds = Some (b, rest)"
  using generate_boards_member [OF assms [unfolded generateMockBoards_def]] by simp

lemma fill_colNums_example:
  assumes "col < 5"
  shows "fill_colNums (BINGO_RANGES ! col) [] (0 # 3 # 6 # 9 # 12 # rest) =
     Some ([15 * col + 1, 15 * col + 4, 15 * col + 7, 15 * col + 10, 15 * col + 13], rest)"
proof -
  have "col = 0 \<or> col = 1 \<or> col = 2 \<or> col = 3 \<or> col = 4"
    using assms by linarith
  then show ?thesis
    by (elim disjE) (simp_all add: fill_colNums_Cons fill_colNums_done BINGO_RANGES_def)
qed

lemma generate_board_example:
  "generate_board ident (example_clock ident) (example_row @ rest) = Some (example_board ident, rest)"
proof -
  have upt5: "[0..<5] = [0, 1, 2, 3, 4 :: nat]"
    by (simp add: upt_rec)
  have "generate_columns [0..<5] [] (example_row @ rest) =
          Some (write_column (write_column (write_column (write_column (write_column []
            0 [1, 4, 7, 10, 13]) 1 [16, 19, 22, 25, 28]) 2 [31, 34, 37, 40, 43])
            3 [46, 49, 52, 55, 58]) 4 [61, 64, 67, 70, 73], rest)"
    unfolding upt5 example_row_def by (simp add: fill_colNums_example)
  then show ?thesis
    unfolding write_columns_five
    by (simp add: generate_board_def example_board_def array_assign_def FREE_SPACE_INDEX_def
        new_Set_def set_add_def set_has_def)
qed

lemma generate_boards_example:
  "generate_boards idents example_clock (concat (replicate (length idents) example_row) @ rest) acc =
     Some (acc @ map example_board idents)"
  by (induction idents arbitrary: acc) (simp_all add: generate_board_example)

lemma MAX_BOARDS_pos: "0 < MAX_BOARDS"
  by (simp add: MAX_BOARDS_def)

lemma idents_Cons: "[1..<MAX_BOARDS + 1] = 1 # [Suc 1..<MAX_BOARDS + 1]"
  using MAX_BOARDS_pos by (subst upt_rec) simp

lemma generateMockBoards_example:
  "generateMockBoards example_clock example_draws = Some example_boards"
proof -
  define idents where "idents = [1..<MAX_BOARDS + 1]"
  have "length idents = MAX_BOARDS"
    by (simp add: idents_def del: upt_Suc)
  with generate_boards_example [of idents "[]" "[]"] show ?thesis
    unfolding generateMockBoards_def example_draws_def example_boards_def idents_def [symmetric]
    by simp
qed

lemma example_boards_first:
  "example_boards ! 0 = example_board 1"
  unfolding example_boards_def idents_Cons by simp

lemma example_board_member:
  "example_board 1 \<in> set example_boards"
  unfolding example_boards_def idents_Cons by simp

lemma set_new_Set: "set (new_Set xs) = set xs"
proof -
  have "set (fold (\<lambda>i s. set_add s i) xs acc) = set xs \<union> set acc" for acc
    by (induction xs arbitrary: acc) (auto simp: set_add_def set_has_def)
  then show ?thesis
    by (simp add: new_Set_def)
qed

lemma new_Set_distinct: "distinct xs \<Longrightarrow> new_Set xs = xs"
proof -
  have "distinct (acc @ xs) \<Longrightarrow> fold (\<lambda>i s. set_add s i) xs acc = acc @ xs" for acc
    by (induction xs arbitrary: acc) (auto simp: set_add_def set_has_def)
  from this [of "[]"] show "distinct xs \<Longrightarrow> new_Set xs = xs"
    by (simp add: new_Set_def)
qed

lemma markedCells_rehydrate_store:
  "set (markedCells (rehydrate_board (store_board b))) = set (markedCells b)"
  by (simp add: rehydrate_board_def store_board_def Array_from_def set_new_Set)

lemma rehydrate_store_frame:
  "board_id (rehydrate_board (store_board b)) = board_id b \<and>
   numbers (rehydrate_board (store_board b)) = numbers b \<and>
   score (rehydrate_board (store_board b)) = score b \<and>
   lastUpdated (rehydrate_board (store_board b)) = lastUpdated b"
  by (simp add: rehydrate_board_def store_board_def)

lemma toggleCell_free: "toggleCell g FREE_SPACE_INDEX b = b"
  by (simp add: toggleCell_def)

lemma markedCells_resetBoard: "markedCells (resetBoard b) = [FREE_SPACE_INDEX]"
  by (simp add: resetBoard_def set_clear_def set_add_def set_has_def)

lemma generateMockBoards_markedCells:
  assumes "generateMockBoards clock draws = Some boards" and "b \<in> set boards"
  shows "markedCells b = [FREE_SPACE_INDEX]"
  using generateMockBoards_member [OF assms] generate_board_fields by blast

section \<open>Properties of the service worker and of persistence\<close>

lemma fold_caches_delete:
  "fold (\<lambda>key remaining. if key \<noteq> CACHE_NAME then caches_delete remaining key else remaining)
     keys cs =
   filter (\<lambda>(name, c). name = CACHE_NAME \<or> name \<notin> set keys) cs"
proof (induction keys arbitrary: cs)
  case Nil
  then show ?case by simp
next
  case (Cons key keys)
  have "filter (\<lambda>(name, c). name = CACHE_NAME \<or> name \<notin> set keys)
          (if key \<noteq> CACHE_NAME then caches_delete cs key else cs) =
        filter (\<lambda>(name, c). name = CACHE_NAME \<or> name \<notin> set (key # keys)) cs"
    by (auto simp: caches_delete_def AList.delete_eq intro: filter_cong)
  with Cons.IH show ?case
    by simp
qed

lemma activate_filter:
  "activate cs = filter (\<lambda>(name, c). name = CACHE_NAME) cs"
  unfolding activate_def caches_keys_def fold_caches_delete
  by (rule filter_cong) force+

lemma handleStaticAsset_resolves:
  "\<exists>r cs'. handleStaticAsset net cs req = Inr (Some r, cs')"
  by (simp add: handleStaticAsset_def split: option.splits)

lemma handleAPIRequest_resolves:
  "\<exists>r cs'. handleAPIRequest net cs req = Inr (Some r, cs')"
  by (simp add: handleAPIRequest_def split: option.splits)

lemma handleDefault_resolves:
  "\<exists>r cs'. handleDefault net cs req = Inr (Some r, cs')"
  by (simp add: handleDefault_def split: option.splits)

lemma handleNavigation_fallback:
  "net req = None \<Longrightarrow> caches_match cs req = None \<Longrightarrow>
   handleNavigation net cs req = Inr (caches_match cs (Request_of ''/index.html''), cs)"
  by (simp add: handleNavigation_def)

text \<open>
  Had \<^verbatim>\<open>loadGameState\<close> read the result of the request, the record that
  \<^verbatim>\<open>saveGameState\<close> stored would come back with the same selection and, board by
  board, the same marked cells.
\<close>

lemma saved_record:
  assumes "db_status db = Available"
  shows "\<exists>saved. saveGameState now db a =
           Inr (saved, a\<lparr>console := console a @ [''Game state saved'']\<rparr>) \<and>
           db_status saved = Available \<and>
           map_of (gameState_store saved) ''current'' = Some (game_state now a)"
  using assms
  by (simp add: saveGameState_def openIndexedDB_def transaction_def update_conv')

lemma codec_round_trip:
  "selectedBoards (snd (loadGameState_state (Plain (Some (game_state now a))) a0)) =
     selectedBoards a \<and>
   map board_id (allBoards (snd (loadGameState_state (Plain (Some (game_state now a))) a0))) =
     map board_id (allBoards a) \<and>
   map (\<lambda>b. set (markedCells b))
       (allBoards (snd (loadGameState_state (Plain (Some (game_state now a))) a0))) =
     map (\<lambda>b. set (markedCells b)) (allBoards a)"
  by (simp add: loadGameState_state_def game_state_def markedCells_rehydrate_store
      rehydrate_store_frame comp_def)

lemma load_after_save:
  assumes "db_status db = Available" and "saveGameState now db a = Inr (saved, a')"
  shows "loadGameState saved a' =
           Inr (a\<lparr>console := console a @ [''Game state saved'', ''Failed to load game state:''],
                  selectedBoards := []\<rparr>)"
  using assms
  by (auto simp: saveGameState_def loadGameState_def openIndexedDB_def transaction_def
      store_get_def loadGameState_state_def)

lemma allBoards_loadGameState:
  "loadGameState db a = Inr a' \<Longrightarrow> allBoards a' = allBoards a"
  by (auto simp: loadGameState_def openIndexedDB_def transaction_def store_get_def
      loadGameState_state_def split: if_splits)

section \<open>The claims\<close>




text \<open>
  C8: toggling a cell other than the free cell twice gives back the set of marked cells.
\<close>

theorem toggleCell_twice:
  "index \<noteq> FREE_SPACE_INDEX \<Longrightarrow>
   set (markedCells (toggleCell has_grid' index (toggleCell has_grid index b))) =
     set (markedCells b)"
  by (auto simp: markedCells_toggleCell)

theorem toggleCell_twice_witness:
  "(0::nat) \<noteq> FREE_SPACE_INDEX \<and>
   set (markedCells (toggleCell True 0 (toggleCell True 0 first_row_board))) =
     set (markedCells first_row_board)"
proof -
  have other: "(0::nat) \<noteq> FREE_SPACE_INDEX"
    by (simp add: FREE_SPACE_INDEX_def)
  from other toggleCell_twice [OF other, of True True first_row_board] show ?thesis
    by blast
qed

text \<open>
  C10: \<^verbatim>\<open>resetBoard\<close> leaves exactly the free cell marked and the score at 0; the id, the
  numbers and the time stamp of the board stay.
\<close>

theorem resetBoard_frame:
  "markedCells (resetBoard b) = [FREE_SPACE_INDEX] \<and>
   set (markedCells (resetBoard b)) = {12} \<and>
   score (resetBoard b) = 0 \<and>
   board_id (resetBoard b) = board_id b \<and>
   numbers (resetBoard b) = numbers b \<and>
   lastUpdated (resetBoard b) = lastUpdated b"
  by (simp add: markedCells_resetBoard) (simp add: resetBoard_def FREE_SPACE_INDEX_def)

text \<open>
  C5: the free cell 12 is the one marked cell of every generated board; \<^verbatim>\<open>toggleCell\<close>
  keeps it marked and does nothing at all on the free cell; \<^verbatim>\<open>resetBoard\<close> marks it; a
  board that is stored and rehydrated keeps its marked cells, and a stored board without
  marked cells is rehydrated with the free cell marked; so the rehydrated boards of a
  saved state all have the free cell marked if the saved boards had, and so have the
  boards that \<^verbatim>\<open>loadGameState\<close> leaves in memory.
\<close>

theorem free_cell_invariant:
  "FREE_SPACE_INDEX = 12 \<and>
   (generateMockBoards clock draws = Some boards \<longrightarrow>
      (\<forall>fresh \<in> set boards. markedCells fresh = [FREE_SPACE_INDEX])) \<and>
   (FREE_SPACE_INDEX \<in> set (markedCells b) \<longrightarrow>
      FREE_SPACE_INDEX \<in> set (markedCells (toggleCell has_grid index b))) \<and>
   toggleCell has_grid FREE_SPACE_INDEX b = b \<and>
   FREE_SPACE_INDEX \<in> set (markedCells (resetBoard b)) \<and>
   set (markedCells (rehydrate_board (store_board b))) = set (markedCells b) \<and>
   (sb_markedCells stored = None \<longrightarrow> markedCells (rehydrate_board stored) = [FREE_SPACE_INDEX]) \<and>
   ((\<forall>kept \<in> set (allBoards a). FREE_SPACE_INDEX \<in> set (markedCells kept)) \<longrightarrow>
      (\<forall>loaded \<in> set (allBoards (snd (loadGameState_state (Plain (Some (game_state now a))) a0))).
         FREE_SPACE_INDEX \<in> set (markedCells loaded))) \<and>
   ((\<forall>kept \<in> set (allBoards a). FREE_SPACE_INDEX \<in> set (markedCells kept)) \<and>
    loadGameState db a = Inr a' \<longrightarrow>
      (\<forall>loaded \<in> set (allBoards a'). FREE_SPACE_INDEX \<in> set (markedCells loaded)))"
proof -
  have gen: "generateMockBoards clock draws = Some boards \<longrightarrow>
      (\<forall>fresh \<in> set boards. markedCells fresh = [FREE_SPACE_INDEX])"
    using generateMockBoards_markedCells by blast
  have toggle: "FREE_SPACE_INDEX \<in> set (markedCells b) \<longrightarrow>
      FREE_SPACE_INDEX \<in> set (markedCells (toggleCell has_grid index b))"
    by (auto simp: markedCells_toggleCell)
  have reset: "FREE_SPACE_INDEX \<in> set (markedCells (resetBoard b))"
    by (simp add: markedCells_resetBoard)
  have missing: "sb_markedCells stored = None \<longrightarrow>
      markedCells (rehydrate_board stored) = [FREE_SPACE_INDEX]"
    by (simp add: rehydrate_board_def new_Set_def set_add_def set_has_def)
  have load: "(\<forall>kept \<in> set (allBoards a). FREE_SPACE_INDEX \<in> set (markedCells kept)) \<longrightarrow>
      (\<forall>loaded \<in> set (allBoards (snd (loadGameState_state (Plain (Some (game_state now a))) a0))).
         FREE_SPACE_INDEX \<in> set (markedCells loaded))"
    by (auto simp: loadGameState_state_def game_state_def markedCells_rehydrate_store)
  have kept: "(\<forall>kept \<in> set (allBoards a). FREE_SPACE_INDEX \<in> set (markedCells kept)) \<and>
      loadGameState db a = Inr a' \<longrightarrow>
      (\<forall>loaded \<in> set (allBoards a'). FREE_SPACE_INDEX \<in> set (markedCells loaded))"
    using allBoards_loadGameState [of db a a'] by simp
  have index: "FREE_SPACE_INDEX = 12"
    by (simp add: FREE_SPACE_INDEX_def)
  from index gen toggle reset missing load kept toggleCell_free [of has_grid b]
    markedCells_rehydrate_store [of b]
  show ?thesis
    by blast
qed

theorem free_cell_invariant_witness:
  "generateMockBoards example_clock example_draws = Some example_boards \<and>
   example_board 1 \<in> set example_boards \<and>
   markedCells (example_board 1) = [FREE_SPACE_INDEX] \<and>
   FREE_SPACE_INDEX \<in> set (markedCells first_row_board) \<and>
   FREE_SPACE_INDEX \<in> set (markedCells (toggleCell True 7 first_row_board))"
proof -
  have marked: "FREE_SPACE_INDEX \<in> set (markedCells first_row_board)"
    by (simp add: first_row_board_def FREE_SPACE_INDEX_def)
  from free_cell_invariant [of example_clock example_draws example_boards first_row_board True 7]
    generateMockBoards_example example_board_member marked
  show ?thesis
    by blast
qed

text \<open>
  C4 (as stated) fails in column N: its third slot, index 12, holds the free marker and
  not a number of 31 to 45.
\<close>

theorem column_N_counterexample:
  "generateMockBoards example_clock example_draws = Some example_boards \<and>
   example_boards ! 0 = example_board 1 \<and>
   column_slots (example_board 1) 2 = [Num 31, Num 34, FREE, Num 40, Num 43]"
  using generateMockBoards_example example_boards_first
  by (simp add: column_slots_def example_board_def upt_rec)

text \<open>
  C4, amended: in every generated board, each column holds from top to bottom five
  strictly increasing (hence distinct) numbers of the column's range (B 1-15, I 16-30,
  N 31-45, G 46-60, O 61-75), except that the third slot of column N, index 12, holds
  the free marker in place of the third number.
\<close>

theorem generated_columns:
  assumes "generateMockBoards clock draws = Some boards" and "b \<in> set boards" and "col < 5"
  shows "length (numbers b) = 25 \<and> numbers b ! FREE_SPACE_INDEX = FREE \<and>
         start (BINGO_RANGES ! col) = 15 * col + 1 \<and>
         end_n (BINGO_RANGES ! col) = 15 * col + 15 \<and>
         (\<exists>ns. length ns = 5 \<and> sorted_wrt (<) ns \<and>
            (\<forall>n \<in> set ns. start (BINGO_RANGES ! col) \<le> n \<and> n \<le> end_n (BINGO_RANGES ! col)) \<and>
            column_slots b col = (if col = 2 then (map Num ns)[2 := FREE] else map Num ns))"
proof -
  obtain ident now ds rest where "generate_board ident now ds = Some (b, rest)"
    using generateMockBoards_member [OF assms(1,2)] by blast
  from generate_board_columns [OF this assms(3)]
  have "length (numbers b) = 25 \<and> numbers b ! FREE_SPACE_INDEX = FREE \<and>
        (\<exists>ns. length ns = 5 \<and> sorted_wrt (<) ns \<and>
            (\<forall>n \<in> set ns. start (BINGO_RANGES ! col) \<le> n \<and> n \<le> end_n (BINGO_RANGES ! col)) \<and>
            column_slots b col = (if col = 2 then (map Num ns)[2 := FREE] else map Num ns))"
    unfolding column_ok_def by blast
  moreover have "col = 0 \<or> col = 1 \<or> col = 2 \<or> col = 3 \<or> col = 4"
    using assms(3) by linarith
  then have "start (BINGO_RANGES ! col) = 15 * col + 1 \<and> end_n (BINGO_RANGES ! col) = 15 * col + 15"
    by (elim disjE) (simp_all add: BINGO_RANGES_def)
  ultimately show ?thesis
    by blast
qed

theorem generated_columns_witness:
  "generateMockBoards example_clock example_draws = Some example_boards \<and>
   example_board 1 \<in> set example_boards \<and> (2::nat) < 5 \<and>
   numbers (example_board 1) ! FREE_SPACE_INDEX = FREE \<and>
   (\<exists>ns. length ns = 5 \<and> sorted_wrt (<) ns \<and>
      column_slots (example_board 1) 2 = (map Num ns)[2 := FREE])"
proof -
  have col: "(2::nat) < 5"
    by simp
  from generated_columns [OF generateMockBoards_example example_board_member col]
    generateMockBoards_example example_board_member
  show ?thesis
    by auto
qed

text \<open>
  C2 (code defect): with the network down and neither the request nor \<^verbatim>\<open>/index.html\<close>
  in any cache, \<^verbatim>\<open>handleNavigation\<close> resolves with \<^verbatim>\<open>undefined\<close>: it has no synthetic
  503 response, which its three sibling handlers all have.
\<close>

theorem handleNavigation_resolves_undefined:
  "handleNavigation offline [(CACHE_NAME, [])] index_request = Inr (None, [(CACHE_NAME, [])])"
  by (simp add: handleNavigation_def offline_def index_request_def cache_match_def
      Request_of_def)

text \<open>
  C3 (code defect): after \<^verbatim>\<open>saveGameState\<close> on a working database, \<^verbatim>\<open>loadGameState\<close>
  leaves the selection empty, although board 1 was selected and saved: the awaited
  request object is taken for the record.
\<close>

theorem save_then_load_loses_selection:
  "selectedBoards one_board_app = [1] \<and>
   (case saveGameState 0 empty_db one_board_app of
      Inl e \<Rightarrow> None
    | Inr (saved, a) \<Rightarrow>
        (case loadGameState saved a of
           Inl e \<Rightarrow> None
         | Inr loaded \<Rightarrow> Some (map_of (gameState_store saved) ''current'', selectedBoards loaded))) =
     Some (Some (game_state 0 one_board_app), [])"
  by (simp add: one_board_app_def empty_db_def saveGameState_def loadGameState_def
      openIndexedDB_def transaction_def store_get_def loadGameState_state_def game_state_def)

text \<open>
  C6: activation keeps exactly the caches named \<^verbatim>\<open>CACHE_NAME\<close>, with their content, and
  deletes every cache of another name; of an old cache and the current one only the
  current one remains.
\<close>

theorem activate_keeps_current:
  "activate cs = filter (\<lambda>(name, c). name = CACHE_NAME) cs \<and>
   (\<forall>name \<in> set (caches_keys (activate cs)). name = CACHE_NAME) \<and>
   (\<forall>name. name \<noteq> CACHE_NAME \<longrightarrow> name \<notin> set (caches_keys (activate cs))) \<and>
   map_of (activate cs) CACHE_NAME = map_of cs CACHE_NAME \<and>
   (CACHE_NAME \<in> set (caches_keys cs) \<and> distinct (caches_keys cs) \<longrightarrow>
      caches_keys (activate cs) = [CACHE_NAME]) \<and>
   activate [(''bingo-pwa-v0.9.0'', old), (CACHE_NAME, current)] = [(CACHE_NAME, current)]"
proof -
  have keys: "caches_keys (activate cs) = filter (\<lambda>name. name = CACHE_NAME) (caches_keys cs)"
    unfolding activate_filter caches_keys_def by (induction cs) auto
  have content: "map_of (activate cs) CACHE_NAME = map_of cs CACHE_NAME"
    unfolding activate_filter by (induction cs) auto
  have single: "caches_keys (activate cs) = [CACHE_NAME]"
    if "CACHE_NAME \<in> set (caches_keys cs)" and "distinct (caches_keys cs)"
  proof -
    have "filter (\<lambda>name. name = CACHE_NAME) names = [CACHE_NAME]"
      if "CACHE_NAME \<in> set names" and "distinct names" for names
      using that by (induction names) (auto simp: filter_empty_conv)
    from this [OF that] show ?thesis
      by (simp add: keys)
  qed
  have example: "activate [(''bingo-pwa-v0.9.0'', old), (CACHE_NAME, current)] =
      [(CACHE_NAME, current)]"
    by (simp add: activate_filter CACHE_NAME_def SW_VERSION_def)
  have only: "\<forall>name \<in> set (caches_keys (activate cs)). name = CACHE_NAME"
    by (simp add: keys)
  then have others: "\<forall>name. name \<noteq> CACHE_NAME \<longrightarrow> name \<notin> set (caches_keys (activate cs))"
    by blast
  from activate_filter [of cs] only others content single example show ?thesis
    by blast
qed

theorem activate_keeps_current_witness:
  "CACHE_NAME \<in> set (caches_keys ((''bingo-pwa-v0.9.0'', []) # installed_caches)) \<and>
   distinct (caches_keys ((''bingo-pwa-v0.9.0'', []) # installed_caches)) \<and>
   caches_keys (activate ((''bingo-pwa-v0.9.0'', []) # installed_caches)) = [CACHE_NAME]"
proof -
  have names: "CACHE_NAME \<in> set (caches_keys ((''bingo-pwa-v0.9.0'', []) # installed_caches))"
    "distinct (caches_keys ((''bingo-pwa-v0.9.0'', []) # installed_caches))"
    by (simp_all add: caches_keys_def installed_caches_def CACHE_NAME_def SW_VERSION_def)
  with activate_keeps_current [of "(''bingo-pwa-v0.9.0'', []) # installed_caches"]
  show ?thesis
    by blast
qed

text \<open>
  C7: when the network fails and the cache storage has a document for the navigation
  request, \<^verbatim>\<open>handleNavigation\<close> answers with that document and leaves the cache storage
  as it is.
\<close>

theorem handleNavigation_offline_cached:
  "net req = None \<Longrightarrow> caches_match cs req = Some document \<Longrightarrow>
   handleNavigation net cs req = Inr (Some document, cs)"
  by (simp add: handleNavigation_def)

theorem handleNavigation_offline_cached_witness:
  "offline index_request = None \<and>
   caches_match installed_caches index_request = Some index_document \<and>
   handleNavigation offline installed_caches index_request =
     Inr (Some index_document, installed_caches)"
proof -
  have down: "offline index_request = None"
    by (simp add: offline_def)
  have cached: "caches_match installed_caches index_request = Some index_document"
    by (simp add: installed_caches_def index_request_def cache_match_def)
  from down cached
    handleNavigation_offline_cached
      [of offline index_request installed_caches index_document, OF down cached]
  show ?thesis
    by blast
qed



end
